theory Spec2Isabelle
  imports Main "HOL-Library.Word"
begin

section \<open>Threshold signing coordinator: a shallow embedding\<close>

text \<open>
  The development follows \<^verbatim>\<open>src/services/mpc/tss-coordinator.service.ts\<close>: the classes
  \<^verbatim>\<open>TSSParty\<close>, \<^verbatim>\<open>FeldmanVSS\<close> and \<^verbatim>\<open>TSSCoordinatorService\<close>.
  Code that the file imports from packages (the \<^verbatim>\<open>elliptic\<close> curve object, Node's
  \<^verbatim>\<open>crypto\<close> hash and random bytes, the AWS Secrets Manager client) is not part of the
  repository. The curve and the hash are parameters of every definition, the random bytes
  are read from an entropy stream, and the secret store is a map inside the state.
\<close>

subsection \<open>Errors and the imported packages\<close>

text \<open>
  Every \<^verbatim>\<open>throw\<close> of the source is a value: \<open>Error msg\<close> for
  \<^verbatim>\<open>throw new Error(msg)\<close>, \<open>TypeError\<close> for a property read on \<^verbatim>\<open>undefined\<close> or
  \<^verbatim>\<open>null\<close>, \<open>CurveError\<close> for an exception raised inside the curve package and
  \<open>StoreError e\<close> for an exception of the secret store that the source rethrows.
  Of the store's exceptions the source only asks whether the message contains
  \<^verbatim>\<open>already exists\<close>: that is the message of \<open>ResourceExists\<close> and of no other.
\<close>

datatype store_error = ResourceExists | ResourceNotFound | ServiceFailure

datatype error = Error string | TypeError | CurveError | StoreError store_error

type_synonym buffer = "8 word list"

text \<open>
  The packages behind \<^verbatim>\<open>sha256\<close> and \<^verbatim>\<open>ec\<close>. A point is a value of type \<open>'p\<close>,
  compared by \<open>=\<close> where the source calls \<^verbatim>\<open>eq\<close>. \<open>ec_mul P k\<close> is
  \<^verbatim>\<open>P.mul(k.toString(16))\<close>; \<open>ec_getX\<close>, \<open>ec_encode\<close> (the compressed form),
  \<open>ec_decodePoint\<close> and \<open>ec_verify\<close> give \<open>None\<close> where the package throws.
  A digest is 256 bits wide; its hexadecimal rendering and the number
  \<^verbatim>\<open>BigInt('0x' + hash.toString('hex'))\<close> are both read from the word.
  The compressed encoding is kept as the bytes that its hexadecimal string spells.
\<close>

record 'p platform =
  sha256 :: "buffer \<Rightarrow> 256 word"
  ec_g :: 'p
  ec_identity :: 'p
  ec_add :: "'p \<Rightarrow> 'p \<Rightarrow> 'p"
  ec_mul :: "'p \<Rightarrow> int \<Rightarrow> 'p"
  ec_getX :: "'p \<Rightarrow> int option"
  ec_encode :: "'p \<Rightarrow> buffer option"
  ec_decodePoint :: "buffer \<Rightarrow> 'p option"
  ec_verify :: "256 word \<Rightarrow> string \<times> string \<Rightarrow> 'p \<Rightarrow> bool option"

subsection \<open>BigInt arithmetic\<close>

text \<open>The constant \<^verbatim>\<open>n\<close> of the source, the order of the secp256k1 group.\<close>

definition secp_n :: int where
  "secp_n = 115792089237316195423570985008687907852837564279074904382605163141518161494337"

text \<open>
  The operators \<^verbatim>\<open>%\<close> and \<^verbatim>\<open>/\<close> of JavaScript's BigInt truncate towards zero: the
  remainder has the sign of the dividend.
\<close>

definition bigint_rem :: "int \<Rightarrow> int \<Rightarrow> int" where
  "bigint_rem a b = sgn a * (\<bar>a\<bar> mod \<bar>b\<bar>)"

definition bigint_div :: "int \<Rightarrow> int \<Rightarrow> int" where
  "bigint_div a b = sgn a * sgn b * (\<bar>a\<bar> div \<bar>b\<bar>)"

subsection \<open>FeldmanVSS.modPow and FeldmanVSS.evaluatePolynomial\<close>

text \<open>
  The \<^verbatim>\<open>while (exp > 0)\<close> loop of \<^verbatim>\<open>modPow\<close>: the result is multiplied by the
  current base when the exponent is odd, then the exponent is halved and the base squared.
\<close>

function modPow_loop :: "int \<Rightarrow> int \<Rightarrow> int \<Rightarrow> int \<Rightarrow> int" where
  "modPow_loop result base exp modulus =
     (if exp > 0 then
        modPow_loop
          (if bigint_rem exp 2 = 1 then bigint_rem (result * base) modulus else result)
          (bigint_rem (base * base) modulus)
          (bigint_div exp 2)
          modulus
      else result)"
  by pat_completeness auto
termination
  by (relation "measure (\<lambda>(result, base, exp, modulus). nat exp)")
     (auto simp: bigint_div_def)

declare modPow_loop.simps [simp del]

definition modPow :: "int \<Rightarrow> int \<Rightarrow> int \<Rightarrow> int" where
  "modPow base exp modulus =
     (if exp = 0 then 1 else modPow_loop 1 (bigint_rem base modulus) exp modulus)"

text \<open>
  \<^verbatim>\<open>evaluatePolynomial\<close>: the loop over the index \<^verbatim>\<open>i\<close>, with the accumulator
  \<^verbatim>\<open>result\<close>; the list holds the coefficients from index \<^verbatim>\<open>i\<close> on.
\<close>

fun evaluatePolynomial_loop :: "int list \<Rightarrow> int \<Rightarrow> nat \<Rightarrow> int \<Rightarrow> int" where
  "evaluatePolynomial_loop [] x i result = result"
| "evaluatePolynomial_loop (a # as) x i result =
     evaluatePolynomial_loop as x (Suc i)
       (bigint_rem (result + bigint_rem (a * modPow x (int i) secp_n) secp_n) secp_n)"

definition evaluatePolynomial :: "int list \<Rightarrow> int \<Rightarrow> int" where
  "evaluatePolynomial coefficients x = evaluatePolynomial_loop coefficients x 0 0"

subsection \<open>Random bytes\<close>

text \<open>
  \<^verbatim>\<open>crypto.randomBytes(32)\<close> reads the entropy stream \<open>rnd\<close> at the next position;
  the 32 bytes are the big-endian digits of \<open>rnd i mod 2 ^ 256\<close>. \<open>randomScalar\<close> is the
  expression \<^verbatim>\<open>BigInt('0x' + crypto.randomBytes(32).toString('hex')) % n\<close>.
\<close>

definition randomBytes32 :: "(nat \<Rightarrow> nat) \<Rightarrow> nat \<Rightarrow> int" where
  "randomBytes32 rnd i = int (rnd i mod 2 ^ 256)"

definition randomScalar :: "(nat \<Rightarrow> nat) \<Rightarrow> nat \<Rightarrow> int" where
  "randomScalar rnd i = bigint_rem (randomBytes32 rnd i) secp_n"

subsection \<open>FeldmanVSS.generateShares and FeldmanVSS.verifyShare\<close>

record 'p vss =
  vss_masterPublicKey :: 'p
  vss_shares :: "(nat \<times> int) list"
  vss_commitments :: "'p list"

text \<open>
  The coefficient loop takes \<open>threshold\<close> draws starting at position \<open>pos\<close> of the
  stream. With no coefficient, \<^verbatim>\<open>masterSecret\<close> is \<^verbatim>\<open>undefined\<close> and
  \<^verbatim>\<open>masterSecret.toString(16)\<close> throws after the shares have been computed.
\<close>

definition drawCoefficients :: "(nat \<Rightarrow> nat) \<Rightarrow> nat \<Rightarrow> nat \<Rightarrow> int list" where
  "drawCoefficients rnd pos threshold = map (\<lambda>i. randomScalar rnd (pos + i)) [0..<threshold]"

definition generateShares ::
  "'p platform \<Rightarrow> (nat \<Rightarrow> nat) \<Rightarrow> nat \<Rightarrow> nat \<Rightarrow> nat \<Rightarrow> error + 'p vss" where
  "generateShares P rnd pos threshold totalParties =
     (let coefficients = drawCoefficients rnd pos threshold;
          commitments = map (\<lambda>coeff. ec_mul P (ec_g P) coeff) coefficients;
          shares = map (\<lambda>x. (x, evaluatePolynomial coefficients (int x))) [1..<Suc totalParties]
      in case commitments of
           [] \<Rightarrow> Inl TypeError
         | masterPublicKey # _ \<Rightarrow>
             Inr \<lparr>vss_masterPublicKey = masterPublicKey, vss_shares = shares,
                  vss_commitments = commitments\<rparr>)"

fun verifyShare_loop :: "'p platform \<Rightarrow> nat \<Rightarrow> 'p list \<Rightarrow> nat \<Rightarrow> 'p \<Rightarrow> 'p" where
  "verifyShare_loop P partyId [] j rightSide = rightSide"
| "verifyShare_loop P partyId (C # cs) j rightSide =
     verifyShare_loop P partyId cs (Suc j)
       (ec_add P rightSide (ec_mul P C (modPow (int partyId) (int j) secp_n)))"

definition verifyShare :: "'p platform \<Rightarrow> nat \<Rightarrow> int \<Rightarrow> 'p list \<Rightarrow> bool" where
  "verifyShare P partyId share commitments =
     (let leftSide = ec_mul P (ec_g P) share;
          rightSide = verifyShare_loop P partyId commitments 0 (ec_identity P)
      in leftSide = rightSide)"

text \<open>
  The verification equation as the specification writes it,
  \<open>s\<^sub>p\<cdot>G = \<Sum>\<^sub>j C\<^sub>j\<cdot>p\<^sup>j\<close> for \<open>j = 0, \<dots>, t - 1\<close>: the powers are exact, and the sum
  starts from the identity.
\<close>

definition feldman_sum :: "'p platform \<Rightarrow> nat \<Rightarrow> 'p list \<Rightarrow> 'p" where
  "feldman_sum P p cs =
     foldl (ec_add P) (ec_identity P) (map (\<lambda>j. ec_mul P (cs ! j) (int p ^ j)) [0..<length cs])"

definition feldman_equation :: "'p platform \<Rightarrow> nat \<Rightarrow> int \<Rightarrow> 'p list \<Rightarrow> bool" where
  "feldman_equation P p s cs \<longleftrightarrow> ec_mul P (ec_g P) s = feldman_sum P p cs"

text \<open>
  What the development assumes of the curve package: the multiples of \<^verbatim>\<open>ec.g\<close> by
  non-negative scalars add and multiply as scalars do, the identity is the zero multiple,
  and \<open>n\<close> annihilates every point (secp256k1 has prime order \<open>n\<close> and cofactor one).
\<close>

definition curve_laws :: "'p platform \<Rightarrow> bool" where
  "curve_laws P \<longleftrightarrow>
     ec_mul P (ec_g P) 0 = ec_identity P \<and>
     (\<forall>a b. 0 \<le> a \<longrightarrow> 0 \<le> b \<longrightarrow>
        ec_add P (ec_mul P (ec_g P) a) (ec_mul P (ec_g P) b) = ec_mul P (ec_g P) (a + b)) \<and>
     (\<forall>a b. 0 \<le> a \<longrightarrow> 0 \<le> b \<longrightarrow>
        ec_mul P (ec_mul P (ec_g P) a) b = ec_mul P (ec_g P) (a * b)) \<and>
     (\<forall>C a. 0 \<le> a \<longrightarrow> ec_mul P C (a mod secp_n) = ec_mul P C a)"

subsection \<open>Hexadecimal and decimal strings\<close>

text \<open>
  \<open>toString16\<close> is \<^verbatim>\<open>BigInt.prototype.toString(16)\<close>, \<open>padStart64\<close> is
  \<^verbatim>\<open>padStart(64, '0')\<close>, \<open>bufferFromHex\<close> is \<^verbatim>\<open>Buffer.from(s, 'hex')\<close>, which stops at
  the first pair that is not two hexadecimal digits, \<open>toHex\<close> is
  \<^verbatim>\<open>Buffer.prototype.toString('hex')\<close>, \<open>parseHexBigInt s\<close> is \<^verbatim>\<open>BigInt('0x' + s)\<close> with
  \<open>None\<close> for its SyntaxError, and \<open>decimal\<close> renders a number inside a template string.
\<close>

definition hexDigit :: "nat \<Rightarrow> char" where
  "hexDigit d = ''0123456789abcdef'' ! d"

fun hexNat :: "nat \<Rightarrow> string" where
  "hexNat k = (if k < 16 then [hexDigit k] else hexNat (k div 16) @ [hexDigit (k mod 16)])"

declare hexNat.simps [simp del]

definition toString16 :: "int \<Rightarrow> string" where
  "toString16 k = (if k < 0 then CHR ''-'' # hexNat (nat (- k)) else hexNat (nat k))"

definition padStart64 :: "string \<Rightarrow> string" where
  "padStart64 s = replicate (64 - length s) CHR ''0'' @ s"

definition hexValue :: "char \<Rightarrow> nat option" where
  "hexValue c =
     (let k = (of_char c :: nat)
      in if 48 \<le> k \<and> k \<le> 57 then Some (k - 48)
         else if 97 \<le> k \<and> k \<le> 102 then Some (k - 87)
         else if 65 \<le> k \<and> k \<le> 70 then Some (k - 55)
         else None)"


fun bufferFromHex :: "string \<Rightarrow> buffer" where
  "bufferFromHex (a # b # rest) =
     (case hexValue a of
        None \<Rightarrow> []
      | Some h \<Rightarrow>
          (case hexValue b of
             None \<Rightarrow> []
           | Some l \<Rightarrow> word_of_nat (16 * h + l) # bufferFromHex rest))"
| "bufferFromHex _ = []"

definition toHex :: "buffer \<Rightarrow> string" where
  "toHex bs = concat (map (\<lambda>b. [hexDigit (unat b div 16), hexDigit (unat b mod 16)]) bs)"

fun parseHexDigits :: "string \<Rightarrow> int \<Rightarrow> int option" where
  "parseHexDigits [] acc = Some acc"
| "parseHexDigits (c # cs) acc =
     (case hexValue c of
        None \<Rightarrow> None
      | Some d \<Rightarrow> parseHexDigits cs (16 * acc + int d))"

text \<open>
  \<^verbatim>\<open>BigInt\<close> ignores white space at the end of its argument (the argument starts with
  \<^verbatim>\<open>0x\<close>, so there is none in front). A string is kept as the bytes of its UTF-8
  encoding; \<open>whiteSpace\<close> lists the encodings of the characters that JavaScript counts as
  white space or line terminator: U+00A0, U+1680, U+2000 to U+200A, U+2028, U+2029,
  U+202F, U+205F, U+3000, U+FEFF and the ASCII ones. The last entry is the single byte
  \<^verbatim>\<open>A0\<close>, for a string handed over in Latin-1. \<open>trimEnd\<close> removes such encodings from the
  end for as long as there is one.
\<close>

definition whiteSpace :: "string list" where
  "whiteSpace =
     [[CHR 0xC2, CHR 0xA0],
      [CHR 0xE1, CHR 0x9A, CHR 0x80],
      [CHR 0xE2, CHR 0x80, CHR 0x80], [CHR 0xE2, CHR 0x80, CHR 0x81],
      [CHR 0xE2, CHR 0x80, CHR 0x82], [CHR 0xE2, CHR 0x80, CHR 0x83],
      [CHR 0xE2, CHR 0x80, CHR 0x84], [CHR 0xE2, CHR 0x80, CHR 0x85],
      [CHR 0xE2, CHR 0x80, CHR 0x86], [CHR 0xE2, CHR 0x80, CHR 0x87],
      [CHR 0xE2, CHR 0x80, CHR 0x88], [CHR 0xE2, CHR 0x80, CHR 0x89],
      [CHR 0xE2, CHR 0x80, CHR 0x8A],
      [CHR 0xE2, CHR 0x80, CHR 0xA8], [CHR 0xE2, CHR 0x80, CHR 0xA9],
      [CHR 0xE2, CHR 0x80, CHR 0xAF],
      [CHR 0xE2, CHR 0x81, CHR 0x9F],
      [CHR 0xE3, CHR 0x80, CHR 0x80],
      [CHR 0xEF, CHR 0xBB, CHR 0xBF],
      [CHR 0x09], [CHR 0x0A], [CHR 0x0B], [CHR 0x0C], [CHR 0x0D], [CHR 0x20],
      [CHR 0xA0]]"

definition endsWith :: "string \<Rightarrow> string \<Rightarrow> bool" where
  "endsWith s ws \<longleftrightarrow> ws \<noteq> [] \<and> length ws \<le> length s \<and> drop (length s - length ws) s = ws"

function trimEnd :: "string \<Rightarrow> string" where
  "trimEnd s =
     (case find (endsWith s) whiteSpace of
        None \<Rightarrow> s
      | Some ws \<Rightarrow> trimEnd (take (length s - length ws) s))"
  by pat_completeness auto
termination
proof (relation "measure length")
  show "wf (measure length)" by simp
next
  fix s :: string and ws
  assume "find (endsWith s) whiteSpace = Some ws"
  then have "endsWith s ws" by (auto simp: find_Some_iff)
  then show "(take (length s - length ws) s, s) \<in> measure length"
    by (cases ws) (auto simp: endsWith_def)
qed

declare trimEnd.simps [simp del]

definition parseHexBigInt :: "string \<Rightarrow> int option" where
  "parseHexBigInt s =
     (let digits = trimEnd s
      in if digits = [] then None else parseHexDigits digits 0)"

definition decimalDigit :: "nat \<Rightarrow> char" where
  "decimalDigit d = ''0123456789'' ! d"

fun decimal :: "nat \<Rightarrow> string" where
  "decimal k = (if k < 10 then [decimalDigit k] else decimal (k div 10) @ [decimalDigit (k mod 10)])"

declare decimal.simps [simp del]

subsection \<open>TSSParty\<close>

record TSSParty =
  partyId :: nat
  keyShare :: int
  ephemeralKey :: "int option"
  ephemeralCommitment :: "256 word option"

text \<open>The constructor: both ephemeral fields start as \<^verbatim>\<open>null\<close>.\<close>

definition newTSSParty :: "nat \<Rightarrow> int \<Rightarrow> TSSParty" where
  "newTSSParty i share =
     \<lparr>partyId = i, keyShare = share, ephemeralKey = None, ephemeralCommitment = None\<rparr>"

definition keyBytes :: "int \<Rightarrow> buffer" where
  "keyBytes share = bufferFromHex (padStart64 (toString16 share))"



definition generateDeterministicNonce :: "'p platform \<Rightarrow> TSSParty \<Rightarrow> buffer \<Rightarrow> int" where
  "generateDeterministicNonce P party message =
     (let hash = sha256 P (keyBytes (keyShare party) @ message);
          nonce = bigint_rem (uint hash) secp_n
      in if nonce = 0 then 1 else nonce)"

record commit =
  commitment :: "256 word"
  publicEphemeral :: buffer

text \<open>
  Round 1. The ephemeral key is stored before the point is encoded, so a failing
  encoding leaves the key set and the commitment untouched.
\<close>

definition generateCommitment ::
  "'p platform \<Rightarrow> TSSParty \<Rightarrow> buffer \<Rightarrow> (error + commit) \<times> TSSParty" where
  "generateCommitment P party message =
     (let nonce = generateDeterministicNonce P party message;
          party1 = party\<lparr>ephemeralKey := Some nonce\<rparr>;
          rPoint = ec_mul P (ec_g P) nonce
      in case ec_encode P rPoint of
           None \<Rightarrow> (Inl CurveError, party1)
         | Some rEncoded \<Rightarrow>
             (let c = sha256 P rEncoded
              in (Inr \<lparr>commitment = c, publicEphemeral = rEncoded\<rparr>,
                  party1\<lparr>ephemeralCommitment := Some c\<rparr>)))"

record partial =
  partialS :: int
  rX :: string

text \<open>
  Round 3. \<^verbatim>\<open>!this.ephemeralKey\<close> holds for \<^verbatim>\<open>null\<close> and for \<^verbatim>\<open>0n\<close>. Reading the
  coordinate of a point without one is a TypeError.
\<close>

definition createPartialSignature ::
  "'p platform \<Rightarrow> TSSParty \<Rightarrow> buffer \<Rightarrow> 'p \<Rightarrow> error + partial" where
  "createPartialSignature P party message aggregatedR =
     (case ephemeralKey party of
        None \<Rightarrow> Inl (Error ''Ephemeral key not initialized. Call generateCommitment first.'')
      | Some k \<Rightarrow>
          if k = 0
          then Inl (Error ''Ephemeral key not initialized. Call generateCommitment first.'')
          else
            (let e = bigint_rem (uint (sha256 P message)) secp_n
             in case ec_getX P aggregatedR of
                  None \<Rightarrow> Inl TypeError
                | Some x \<Rightarrow>
                    Inr \<lparr>partialS = bigint_rem (k + e * keyShare party) secp_n,
                         rX = padStart64 (toString16 x)\<rparr>))"

definition verifyCommitment :: "'p platform \<Rightarrow> TSSParty \<Rightarrow> buffer \<Rightarrow> bool" where
  "verifyCommitment P party decommitment =
     (case ephemeralCommitment party of
        None \<Rightarrow> False
      | Some c \<Rightarrow> sha256 P decommitment = c)"

subsection \<open>The coordinator and the secret store\<close>

text \<open>
  One record holds the fields of \<^verbatim>\<open>TSSCoordinatorService\<close> (\<open>parties\<close>,
  \<open>masterPublicKey\<close>, \<open>commitments\<close>) and what the service shares with its environment:
  the secrets by name, whether the store is out of reach (then every request to it
  throws), and the position reached in the entropy stream.
\<close>

record 'p state =
  parties :: "nat \<rightharpoonup> TSSParty"
  masterPublicKey :: "'p option"
  commitments :: "'p list"
  secrets :: "string \<rightharpoonup> string"
  storeDown :: bool
  rngPos :: nat

text \<open>
  Modelled from the spec: the requests \<^verbatim>\<open>CreateSecretCommand\<close> and
  \<^verbatim>\<open>GetSecretValueCommand\<close> are served by the external share store, whose code is not
  in the repository. Its \<^verbatim>\<open>put\<close> is create-if-absent and answers "already exists" for a
  name that is taken, its \<^verbatim>\<open>get\<close> is by exact key and answers "not found"; either
  fails when the store cannot be reached.
\<close>

definition createSecret :: "string \<Rightarrow> string \<Rightarrow> 'p state \<Rightarrow> store_error + 'p state" where
  "createSecret name secretString st =
     (if storeDown st then Inl ServiceFailure
      else case secrets st name of
             Some _ \<Rightarrow> Inl ResourceExists
           | None \<Rightarrow> Inr (st\<lparr>secrets := (secrets st)(name \<mapsto> secretString)\<rparr>))"

definition getSecretValue :: "string \<Rightarrow> 'p state \<Rightarrow> store_error + string" where
  "getSecretValue name st =
     (if storeDown st then Inl ServiceFailure
      else case secrets st name of
             None \<Rightarrow> Inl ResourceNotFound
           | Some secretString \<Rightarrow> Inr secretString)"

definition secretName :: "string \<Rightarrow> nat \<Rightarrow> string" where
  "secretName walletId shareId =
     ''hyperliquid/tss-shares/'' @ walletId @ ''/share-'' @ decimal shareId"

text \<open>\<^verbatim>\<open>storeKeyShare\<close>: the \<^verbatim>\<open>catch\<close> rethrows every error but "already exists".\<close>

definition storeKeyShare ::
  "string \<Rightarrow> nat \<Rightarrow> int \<Rightarrow> 'p state \<Rightarrow> (error + unit) \<times> 'p state" where
  "storeKeyShare walletId shareId share st =
     (let shareHex = padStart64 (toString16 share)
      in case createSecret (secretName walletId shareId) shareHex st of
           Inr st' \<Rightarrow> (Inr (), st')
         | Inl e \<Rightarrow> if e = ResourceExists then (Inr (), st) else (Inl (StoreError e), st))"

text \<open>
  \<^verbatim>\<open>getKeyShare\<close>: a failed request, an empty \<^verbatim>\<open>SecretString\<close> and a string that
  \<^verbatim>\<open>BigInt\<close> rejects all end in the \<^verbatim>\<open>catch\<close>, which draws a random scalar.
\<close>

definition getKeyShare ::
  "(nat \<Rightarrow> nat) \<Rightarrow> string \<Rightarrow> nat \<Rightarrow> 'p state \<Rightarrow> int \<times> 'p state" where
  "getKeyShare rnd walletId pid st =
     (let fallback = (randomScalar rnd (rngPos st), st\<lparr>rngPos := Suc (rngPos st)\<rparr>)
      in case getSecretValue (secretName walletId pid) st of
           Inl _ \<Rightarrow> fallback
         | Inr secretString \<Rightarrow>
             (case parseHexBigInt secretString of
                None \<Rightarrow> fallback
              | Some share \<Rightarrow> (share, st)))"

fun initializeParties_loop ::
  "(nat \<Rightarrow> nat) \<Rightarrow> string \<Rightarrow> nat list \<Rightarrow> 'p state \<Rightarrow> 'p state" where
  "initializeParties_loop rnd walletId [] st = st"
| "initializeParties_loop rnd walletId (i # rest) st =
     (case getKeyShare rnd walletId i st of
        (share, st1) \<Rightarrow>
          initializeParties_loop rnd walletId rest
            (st1\<lparr>parties := (parties st1)(i \<mapsto> newTSSParty i share)\<rparr>))"

definition initializeParties ::
  "(nat \<Rightarrow> nat) \<Rightarrow> string \<Rightarrow> nat \<Rightarrow> nat \<Rightarrow> 'p state \<Rightarrow> 'p state" where
  "initializeParties rnd walletId threshold totalParties st =
     initializeParties_loop rnd walletId [1..<Suc totalParties] st"

subsection \<open>performDKG\<close>

fun performDKG_loop ::
  "'p platform \<Rightarrow> string \<Rightarrow> 'p list \<Rightarrow> (nat \<times> int) list \<Rightarrow> 'p state \<Rightarrow> (error + unit) \<times> 'p state" where
  "performDKG_loop P walletId cs [] st = (Inr (), st)"
| "performDKG_loop P walletId cs ((pid, share) # rest) st =
     (if \<not> verifyShare P pid share cs
      then (Inl (Error (''Share verification failed for party '' @ decimal pid)), st)
      else case storeKeyShare walletId pid share st of
             (Inl e, st1) \<Rightarrow> (Inl e, st1)
           | (Inr _, st1) \<Rightarrow> performDKG_loop P walletId cs rest st1)"

record dkg_result =
  publicKey :: string
  shareIds :: "nat list"

definition performDKG ::
  "'p platform \<Rightarrow> (nat \<Rightarrow> nat) \<Rightarrow> string \<Rightarrow> nat \<Rightarrow> nat \<Rightarrow> 'p state \<Rightarrow>
   (error + dkg_result) \<times> 'p state" where
  "performDKG P rnd walletId threshold totalParties st =
     (let st0 = st\<lparr>rngPos := rngPos st + threshold\<rparr>
      in case generateShares P rnd (rngPos st) threshold totalParties of
           Inl e \<Rightarrow> (Inl e, st0)
         | Inr v \<Rightarrow>
             (let st1 = st0\<lparr>masterPublicKey := Some (vss_masterPublicKey v),
                            commitments := vss_commitments v\<rparr>
              in case performDKG_loop P walletId (vss_commitments v) (vss_shares v) st1 of
                   (Inl e, st2) \<Rightarrow> (Inl e, st2)
                 | (Inr _, st2) \<Rightarrow>
                     (case ec_encode P (vss_masterPublicKey v) of
                        None \<Rightarrow> (Inl CurveError, st2)
                      | Some encoded \<Rightarrow>
                          (Inr \<lparr>publicKey = ''0x'' @ toHex encoded,
                                shareIds = map fst (vss_shares v)\<rparr>, st2))))"

subsection \<open>signWithTSS\<close>

text \<open>
  The local \<^verbatim>\<open>commitments\<close> of \<^verbatim>\<open>signWithTSS\<close> is a JavaScript \<^verbatim>\<open>Map\<close>: setting
  a key that is present replaces its value in place, a new key goes last, and iteration
  follows that order.
\<close>

fun mapSet :: "nat \<Rightarrow> 'v \<Rightarrow> (nat \<times> 'v) list \<Rightarrow> (nat \<times> 'v) list" where
  "mapSet k v [] = [(k, v)]"
| "mapSet k v ((k', v') # rest) =
     (if k = k' then (k, v) # rest else (k', v') # mapSet k v rest)"

text \<open>Round 1: each party commits; the party object in \<open>parties\<close> is updated in place.\<close>

fun round1 ::
  "'p platform \<Rightarrow> buffer \<Rightarrow> nat list \<Rightarrow> (nat \<times> commit) list \<Rightarrow> 'p state \<Rightarrow>
   (error + (nat \<times> commit) list) \<times> 'p state" where
  "round1 P message [] cm st = (Inr cm, st)"
| "round1 P message (pid # rest) cm st =
     (case parties st pid of
        None \<Rightarrow> (Inl (Error (''Party '' @ decimal pid @ '' not initialized'')), st)
      | Some party \<Rightarrow>
          (case generateCommitment P party message of
             (Inl e, party') \<Rightarrow> (Inl e, st\<lparr>parties := (parties st)(pid \<mapsto> party')\<rparr>)
           | (Inr c, party') \<Rightarrow>
               round1 P message rest (mapSet pid c cm)
                 (st\<lparr>parties := (parties st)(pid \<mapsto> party')\<rparr>)))"

text \<open>
  Round 2: every commitment is checked by its own party and the points are added up,
  starting from the identity.
\<close>

fun round2 :: "'p platform \<Rightarrow> (nat \<times> commit) list \<Rightarrow> 'p \<Rightarrow> 'p state \<Rightarrow> error + 'p" where
  "round2 P [] aggregatedR st = Inr aggregatedR"
| "round2 P ((pid, c) # rest) aggregatedR st =
     (case parties st pid of
        None \<Rightarrow> Inl TypeError
      | Some party \<Rightarrow>
          if \<not> verifyCommitment P party (publicEphemeral c)
          then Inl (Error (''Commitment verification failed for party '' @ decimal pid))
          else
            (case ec_decodePoint P (publicEphemeral c) of
               None \<Rightarrow> Inl CurveError
             | Some rPoint \<Rightarrow> round2 P rest (ec_add P aggregatedR rPoint) st))"

record partialSignature =
  ps_partyId :: nat
  ps_s :: int
  ps_r :: string

text \<open>Round 3: a party that is missing is skipped; the others sign in turn.\<close>

fun round3 ::
  "'p platform \<Rightarrow> buffer \<Rightarrow> 'p \<Rightarrow> nat list \<Rightarrow> partialSignature list \<Rightarrow> 'p state \<Rightarrow>
   error + partialSignature list" where
  "round3 P message aggregatedR [] partialSignatures st = Inr partialSignatures"
| "round3 P message aggregatedR (pid # rest) partialSignatures st =
     (case parties st pid of
        None \<Rightarrow> round3 P message aggregatedR rest partialSignatures st
      | Some party \<Rightarrow>
          (case createPartialSignature P party message aggregatedR of
             Inl e \<Rightarrow> Inl e
           | Inr p \<Rightarrow>
               round3 P message aggregatedR rest
                 (partialSignatures @ [\<lparr>ps_partyId = pid, ps_s = partialS p, ps_r = rX p\<rparr>]) st))"

text \<open>Round 4: the sum of the partial signatures, reduced at every step.\<close>

fun aggregateS :: "partialSignature list \<Rightarrow> int \<Rightarrow> int" where
  "aggregateS [] aggregatedS = aggregatedS"
| "aggregateS (p # rest) aggregatedS = aggregateS rest (bigint_rem (aggregatedS + ps_s p) secp_n)"

record tss_signature =
  sig_r :: string
  sig_s :: string
  sig_method :: string

text \<open>
  The body of \<^verbatim>\<open>signWithTSS\<close> up to its first \<^verbatim>\<open>return\<close>, which ends the function:
  the statements that follow it in the source are never executed. Reading
  \<^verbatim>\<open>partialSignatures[0].r\<close> of an empty array is a TypeError.
\<close>

definition signWithTSS ::
  "'p platform \<Rightarrow> string \<Rightarrow> buffer \<Rightarrow> nat list \<Rightarrow> 'p state \<Rightarrow>
   (error + tss_signature) \<times> 'p state" where
  "signWithTSS P walletId message signingParties st =
     (case round1 P message signingParties [] st of
        (Inl e, st1) \<Rightarrow> (Inl e, st1)
      | (Inr cm, st1) \<Rightarrow>
          (case round2 P cm (ec_identity P) st1 of
             Inl e \<Rightarrow> (Inl e, st1)
           | Inr aggregatedR \<Rightarrow>
               (case ec_getX P aggregatedR of
                  None \<Rightarrow> (Inl TypeError, st1)
                | Some x \<Rightarrow>
                    (case round3 P message aggregatedR signingParties [] st1 of
                       Inl e \<Rightarrow> (Inl e, st1)
                     | Inr partialSignatures \<Rightarrow>
                         (let aggregatedS = aggregateS partialSignatures 0
                          in case partialSignatures of
                               [] \<Rightarrow> (Inl TypeError, st1)
                             | first # _ \<Rightarrow>
                                 (Inr \<lparr>sig_r = ps_r first,
                                       sig_s = padStart64 (toString16 aggregatedS),
                                       sig_method =
                                         ''Threshold Signatures (Feldman VSS DKG + Multi-round Protocol)''\<rparr>,
                                  st1))))))"

text \<open>
  \<^verbatim>\<open>verifySignature\<close>, the private method that only the unreachable tail of
  \<^verbatim>\<open>signWithTSS\<close> calls: an exception of \<^verbatim>\<open>ec.verify\<close> counts as a failed check.
\<close>

definition verifySignature ::
  "'p platform \<Rightarrow> 'p state \<Rightarrow> buffer \<Rightarrow> string \<Rightarrow> string \<Rightarrow> error + bool" where
  "verifySignature P st message r s =
     (case masterPublicKey st of
        None \<Rightarrow> Inl (Error ''Master public key not initialized'')
      | Some key \<Rightarrow>
          Inr (case ec_verify P (sha256 P message) (r, s) key of
                 None \<Rightarrow> False
               | Some ok \<Rightarrow> ok))"

subsection \<open>A stand-in for the packages\<close>

text \<open>
  To run the definitions on concrete inputs the parameters need values. The stand-in
  takes the integers modulo \<open>n\<close> under addition for the curve, with generator \<open>1\<close> and
  identity \<open>0\<close>: a cyclic group of order \<open>n\<close>, as the secp256k1 group is. A point is
  encoded by its base-256 digits, the identity has neither a coordinate nor an encoding,
  and the hash is a byte checksum. \<open>ec_verify\<close> rejects every signature.
\<close>

fun bytesOfNat :: "nat \<Rightarrow> buffer" where
  "bytesOfNat k =
     (if k < 256 then [word_of_nat k] else bytesOfNat (k div 256) @ [word_of_nat (k mod 256)])"

declare bytesOfNat.simps [simp del]

definition natOfBytes :: "buffer \<Rightarrow> nat" where
  "natOfBytes bs = foldl (\<lambda>acc b. 256 * acc + unat b) 0 bs"

definition checksum :: "buffer \<Rightarrow> 256 word" where
  "checksum bs = word_of_nat (Suc (sum_list (map unat bs)))"

definition zn_platform :: "int platform" where
  "zn_platform =
     \<lparr>sha256 = checksum,
      ec_g = 1,
      ec_identity = 0,
      ec_add = (\<lambda>a b. (a + b) mod secp_n),
      ec_mul = (\<lambda>a k. (a * k) mod secp_n),
      ec_getX = (\<lambda>a. if a = 0 then None else Some a),
      ec_encode = (\<lambda>a. if a = 0 then None else Some (bytesOfNat (nat a))),
      ec_decodePoint = (\<lambda>bs. Some (int (natOfBytes bs))),
      ec_verify = (\<lambda>h sig key. Some False)\<rparr>"

text \<open>An entropy stream, and a service that has just started with an empty store.\<close>

definition demo_rnd :: "nat \<Rightarrow> nat" where
  "demo_rnd i = 7 + 5 * i"

definition fresh :: "int state" where
  "fresh =
     \<lparr>parties = Map.empty, masterPublicKey = None, commitments = [], secrets = Map.empty,
      storeDown = False, rngPos = 0\<rparr>"


subsection \<open>Histories, predicates and sample states used in the statements\<close>


definition committed :: "'p platform \<Rightarrow> buffer \<Rightarrow> 'p state \<Rightarrow> nat \<Rightarrow> bool" where
  "committed P message st pid =
     (case parties st pid of
        None \<Rightarrow> False
      | Some party \<Rightarrow>
          ephemeralKey party = Some (generateDeterministicNonce P party message) \<and>
          ephemeralCommitment party \<noteq> None)"

text \<open>
  \<open>round1_invoked P message ids st\<close> lists, in order, the parties on which Round 1 of a
  session invokes \<^verbatim>\<open>generateCommitment\<close>: it follows the loop of \<open>round1\<close> and stops
  where that loop throws. \<open>keyed P message st pid\<close> says that party \<open>pid\<close> holds the
  ephemeral key that Round 1 derives for \<open>message\<close>. \<open>retained p p'\<close> says that \<open>p'\<close> is
  the party \<open>p\<close> with no ephemeral field cleared.
\<close>

fun round1_invoked :: "'p platform \<Rightarrow> buffer \<Rightarrow> nat list \<Rightarrow> 'p state \<Rightarrow> nat list" where
  "round1_invoked P message [] st = []"
| "round1_invoked P message (pid # rest) st =
     (case parties st pid of
        None \<Rightarrow> []
      | Some party \<Rightarrow>
          (case generateCommitment P party message of
             (Inl e, party') \<Rightarrow> [pid]
           | (Inr c, party') \<Rightarrow>
               pid # round1_invoked P message rest
                       (st\<lparr>parties := (parties st)(pid \<mapsto> party')\<rparr>)))"

definition keyed :: "'p platform \<Rightarrow> buffer \<Rightarrow> 'p state \<Rightarrow> nat \<Rightarrow> bool" where
  "keyed P message st pid =
     (case parties st pid of
        None \<Rightarrow> False
      | Some party \<Rightarrow> ephemeralKey party = Some (generateDeterministicNonce P party message))"

definition retained :: "TSSParty \<Rightarrow> TSSParty \<Rightarrow> bool" where
  "retained p p' \<longleftrightarrow>
     partyId p' = partyId p \<and> keyShare p' = keyShare p \<and>
     (ephemeralKey p = None \<or> ephemeralKey p' \<noteq> None) \<and>
     (ephemeralCommitment p = None \<or> ephemeralCommitment p' \<noteq> None)"

text \<open>
  Sample inputs: an entropy stream and a hash that only give zero; the service after
  \<^verbatim>\<open>performDKG('w2', 2, 3)\<close>, after \<^verbatim>\<open>initializeParties('w2', 2, 3)\<close> on top of that,
  and with the store out of reach after the key generation. \<open>const_rnd v\<close> is the entropy
  stream whose every draw is \<open>v\<close>.
\<close>

definition zero_rnd :: "nat \<Rightarrow> nat" where
  "zero_rnd i = 0"

definition const_rnd :: "nat \<Rightarrow> nat \<Rightarrow> nat" where
  "const_rnd v i = v"

definition zero_hash :: "buffer \<Rightarrow> 256 word" where
  "zero_hash bs = 0"

definition demo_wallet :: "int state" where
  "demo_wallet = snd (performDKG zn_platform demo_rnd ''w2'' 2 3 fresh)"

definition demo_ready :: "int state" where
  "demo_ready = initializeParties demo_rnd ''w2'' 2 3 demo_wallet"

definition stalled_wallet :: "int state" where
  "stalled_wallet = demo_wallet\<lparr>storeDown := True\<rparr>"

section \<open>Verification\<close>

subsection \<open>Modular exponentiation\<close>

lemma nat_odd_half: "0 < e \<Longrightarrow> e mod 2 = 1 \<Longrightarrow> nat e = Suc (2 * nat (e div 2))" for e :: int
proof -
  assume a: "0 < e" "e mod 2 = 1"
  have k: "0 \<le> e div 2" using a by simp
  have "e = 2 * (e div 2) + 1" using a by presburger
  then have "nat e = nat (2 * (e div 2) + 1)" by simp
  also have "\<dots> = Suc (2 * nat (e div 2))" using k by (simp add: nat_add_distrib nat_mult_distrib)
  finally show ?thesis .
qed

lemma nat_even_half: "0 < e \<Longrightarrow> e mod 2 = 0 \<Longrightarrow> nat e = 2 * nat (e div 2)" for e :: int
proof -
  assume a: "0 < e" "e mod 2 = 0"
  have k: "0 \<le> e div 2" using a by simp
  have "e = 2 * (e div 2)" using a by presburger
  then have "nat e = nat (2 * (e div 2))" by simp
  also have "\<dots> = 2 * nat (e div 2)" using k by (simp add: nat_mult_distrib)
  finally show ?thesis .
qed

lemma mod_step_odd: "((r * b) mod m * ((b * b) mod m) ^ k) mod m = ((r * b) * (b * b) ^ k) mod m" for r :: int
proof -
  have "((r * b) mod m * ((b * b) mod m) ^ k) mod m = ((r * b) mod m * (((b * b) mod m) ^ k mod m)) mod m"
    by (simp add: mod_mult_right_eq)
  also have "\<dots> = ((r * b) mod m * ((b * b) ^ k mod m)) mod m" by (simp only: power_mod)
  also have "\<dots> = ((r * b) * (b * b) ^ k) mod m" by (simp only: mod_mult_eq)
  finally show ?thesis .
qed

lemma mod_step_even: "(r * ((b * b) mod m) ^ k) mod m = (r * (b * b) ^ k) mod m" for r :: int
proof -
  have "(r * ((b * b) mod m) ^ k) mod m = (r * (((b * b) mod m) ^ k mod m)) mod m"
    by (simp add: mod_mult_right_eq)
  also have "\<dots> = (r * ((b * b) ^ k mod m)) mod m" by (simp only: power_mod)
  also have "\<dots> = (r * (b * b) ^ k) mod m" by (simp only: mod_mult_right_eq)
  finally show ?thesis .
qed

lemma square_power: "(b * b) ^ k = b ^ (2 * k)" for b :: int
  by (simp add: power_mult power2_eq_square)

lemma bigint_rem_nonneg: "0 \<le> a \<Longrightarrow> 0 < b \<Longrightarrow> bigint_rem a b = a mod b"
  by (cases "a = 0") (auto simp: bigint_rem_def)

lemma bigint_div_two: "0 < e \<Longrightarrow> bigint_div e 2 = e div 2"
  by (simp add: bigint_div_def)

lemma modPow_loop_stop: "\<not> 0 < e \<Longrightarrow> modPow_loop r b e m = r"
  by (subst modPow_loop.simps) simp

lemma modPow_loop_odd:
  assumes "0 < e" "e mod 2 = 1" "0 \<le> r" "0 \<le> b" "0 < m"
  shows "modPow_loop r b e m = modPow_loop ((r * b) mod m) ((b * b) mod m) (e div 2) m"
proof -
  have "bigint_rem e 2 = 1" using assms by (simp add: bigint_rem_nonneg)
  moreover have "bigint_rem (r * b) m = (r * b) mod m" using assms by (simp add: bigint_rem_nonneg)
  moreover have "bigint_rem (b * b) m = (b * b) mod m" using assms by (simp add: bigint_rem_nonneg)
  moreover have "bigint_div e 2 = e div 2" using assms by (simp add: bigint_div_two)
  ultimately show ?thesis using assms(1) by (subst modPow_loop.simps) simp
qed

lemma modPow_loop_even:
  assumes "0 < e" "e mod 2 = 0" "0 \<le> b" "0 < m"
  shows "modPow_loop r b e m = modPow_loop r ((b * b) mod m) (e div 2) m"
proof -
  have "bigint_rem e 2 = 0" using assms by (simp add: bigint_rem_nonneg)
  moreover have "bigint_rem (b * b) m = (b * b) mod m" using assms by (simp add: bigint_rem_nonneg)
  moreover have "bigint_div e 2 = e div 2" using assms by (simp add: bigint_div_two)
  ultimately show ?thesis using assms(1) by (subst modPow_loop.simps) simp
qed

lemma modPow_loop_eq:
  "0 \<le> e \<Longrightarrow> 0 \<le> r \<Longrightarrow> 0 \<le> b \<Longrightarrow> 0 < m \<Longrightarrow> r < m \<Longrightarrow>
   modPow_loop r b e m = (r * b ^ nat e) mod m"
proof (induction "nat e" arbitrary: e r b rule: less_induct)
  case less
  show ?case
  proof (cases "0 < e")
    case False
    then have "e = 0" using less.prems by simp
    then show ?thesis using less.prems by (simp add: modPow_loop_stop)
  next
    case pos: True
    have half: "nat (e div 2) < nat e" "0 \<le> e div 2" using pos by simp_all
    have sq: "0 \<le> (b * b) mod m" using less.prems by simp
    show ?thesis
    proof (cases "e mod 2 = 1")
      case True
      have r': "0 \<le> (r * b) mod m" "(r * b) mod m < m" using less.prems by simp_all
      have "modPow_loop r b e m = modPow_loop ((r * b) mod m) ((b * b) mod m) (e div 2) m"
        using pos True less.prems by (simp add: modPow_loop_odd)
      also have "\<dots> = ((r * b) mod m * ((b * b) mod m) ^ nat (e div 2)) mod m"
        using less.hyps [OF half(1) half(2) r'(1) sq \<open>0 < m\<close> r'(2)] .
      also have "\<dots> = ((r * b) * (b * b) ^ nat (e div 2)) mod m" by (rule mod_step_odd)
      also have "\<dots> = (r * b ^ Suc (2 * nat (e div 2))) mod m"
        by (simp add: square_power mult.assoc)
      also have "\<dots> = (r * b ^ nat e) mod m" using nat_odd_half [OF pos True] by simp
      finally show ?thesis .
    next
      case False
      then have ev: "e mod 2 = 0" by presburger
      have "modPow_loop r b e m = modPow_loop r ((b * b) mod m) (e div 2) m"
        using pos ev less.prems by (simp add: modPow_loop_even)
      also have "\<dots> = (r * ((b * b) mod m) ^ nat (e div 2)) mod m"
        using less.hyps [OF half(1) half(2) \<open>0 \<le> r\<close> sq \<open>0 < m\<close> \<open>r < m\<close>] .
      also have "\<dots> = (r * (b * b) ^ nat (e div 2)) mod m" by (rule mod_step_even)
      also have "\<dots> = (r * b ^ (2 * nat (e div 2))) mod m" by (simp only: square_power)
      also have "\<dots> = (r * b ^ nat e) mod m" using nat_even_half [OF pos ev] by simp
      finally show ?thesis .
    qed
  qed
qed

lemma modPow_eq:
  assumes "0 \<le> b" "0 \<le> e" "1 < m"
  shows "modPow b e m = (b ^ nat e) mod m"
proof (cases "e = 0")
  case True
  then show ?thesis using assms by (simp add: modPow_def)
next
  case False
  have b: "bigint_rem b m = b mod m" using assms by (simp add: bigint_rem_nonneg)
  have "modPow_loop 1 (b mod m) e m = (1 * (b mod m) ^ nat e) mod m"
    using assms by (intro modPow_loop_eq) simp_all
  also have "\<dots> = (b ^ nat e) mod m" by (simp add: power_mod)
  finally show ?thesis using False by (simp add: modPow_def b)
qed

lemma secp_n_gt_1: "1 < secp_n" by (simp add: secp_n_def)

lemma modPow_party: "modPow (int p) (int j) secp_n = (int p ^ j) mod secp_n"
  using modPow_eq [of "int p" "int j" secp_n] secp_n_gt_1 by simp

lemma modPow_party_nonneg: "0 \<le> modPow (int p) (int j) secp_n"
  using secp_n_gt_1 by (simp add: modPow_party)

subsection \<open>Feldman verification\<close>

lemma curve_lawsD:
  assumes "curve_laws P"
  shows "ec_mul P (ec_g P) 0 = ec_identity P"
    and "0 \<le> a \<Longrightarrow> 0 \<le> b \<Longrightarrow>
         ec_add P (ec_mul P (ec_g P) a) (ec_mul P (ec_g P) b) = ec_mul P (ec_g P) (a + b)"
    and "0 \<le> a \<Longrightarrow> 0 \<le> b \<Longrightarrow> ec_mul P (ec_mul P (ec_g P) a) b = ec_mul P (ec_g P) (a * b)"
    and "0 \<le> a \<Longrightarrow> ec_mul P C (a mod secp_n) = ec_mul P C a"
  using assms unfolding curve_laws_def by blast+

lemma accumulate_term:
  assumes laws: "curve_laws P" and r: "0 \<le> r" and a: "0 \<le> a" and e: "0 \<le> e"
  shows "ec_mul P (ec_g P) (bigint_rem (r + bigint_rem (a * e) secp_n) secp_n) =
         ec_add P (ec_mul P (ec_g P) r) (ec_mul P (ec_mul P (ec_g P) a) e)"
proof -
  have ae: "0 \<le> a * e" using a e by simp
  have n: "0 < secp_n" using secp_n_gt_1 by simp
  have m: "0 \<le> (a * e) mod secp_n" using n by simp
  have "bigint_rem (r + bigint_rem (a * e) secp_n) secp_n = (r + (a * e) mod secp_n) mod secp_n"
    using r ae n m by (simp add: bigint_rem_nonneg)
  then have "ec_mul P (ec_g P) (bigint_rem (r + bigint_rem (a * e) secp_n) secp_n) =
             ec_mul P (ec_g P) (r + (a * e) mod secp_n)"
    using curve_lawsD(4) [OF laws, of "r + (a * e) mod secp_n"] r m by simp
  also have "\<dots> = ec_add P (ec_mul P (ec_g P) r) (ec_mul P (ec_g P) ((a * e) mod secp_n))"
    using curve_lawsD(2) [OF laws r m] by simp
  also have "\<dots> = ec_add P (ec_mul P (ec_g P) r) (ec_mul P (ec_g P) (a * e))"
    using curve_lawsD(4) [OF laws ae] by simp
  also have "\<dots> = ec_add P (ec_mul P (ec_g P) r) (ec_mul P (ec_mul P (ec_g P) a) e)"
    using curve_lawsD(3) [OF laws a e] by simp
  finally show ?thesis .
qed

lemma bigint_rem_range: "0 \<le> a \<Longrightarrow> 0 < b \<Longrightarrow> 0 \<le> bigint_rem a b \<and> bigint_rem a b < b"
  by (simp add: bigint_rem_nonneg)

lemma verify_tracks_evaluate:
  assumes laws: "curve_laws P"
  shows "\<forall>a\<in>set as. 0 \<le> a \<Longrightarrow> 0 \<le> r \<Longrightarrow>
         verifyShare_loop P p (map (\<lambda>coeff. ec_mul P (ec_g P) coeff) as) j (ec_mul P (ec_g P) r) =
         ec_mul P (ec_g P) (evaluatePolynomial_loop as (int p) j r)"
proof (induction as arbitrary: j r)
  case Nil
  then show ?case by simp
next
  case (Cons a as)
  let ?e = "modPow (int p) (int j) secp_n"
  let ?r' = "bigint_rem (r + bigint_rem (a * ?e) secp_n) secp_n"
  have a: "0 \<le> a" and rest: "\<forall>a\<in>set as. 0 \<le> a" using Cons.prems by simp_all
  have e: "0 \<le> ?e" by (rule modPow_party_nonneg)
  have n: "0 < secp_n" using secp_n_gt_1 by simp
  have "0 \<le> bigint_rem (a * ?e) secp_n" using a e n by (simp add: bigint_rem_range)
  then have r': "0 \<le> ?r'" using Cons.prems(2) n by (simp add: bigint_rem_range)
  have step: "ec_add P (ec_mul P (ec_g P) r) (ec_mul P (ec_mul P (ec_g P) a) ?e) = ec_mul P (ec_g P) ?r'"
    using accumulate_term [OF laws Cons.prems(2) a e] by simp
  show ?case using Cons.IH [OF rest r', of "Suc j"] step by simp
qed

lemma drawCoefficients_range:
  "a \<in> set (drawCoefficients rnd pos t) \<Longrightarrow> 0 \<le> a \<and> a < secp_n"
  using secp_n_gt_1
  by (auto simp: drawCoefficients_def randomScalar_def randomBytes32_def bigint_rem_nonneg)

lemma generated_share_verifies:
  assumes laws: "curve_laws P"
  shows "verifyShare P p (evaluatePolynomial (drawCoefficients rnd pos t) (int p))
           (map (\<lambda>coeff. ec_mul P (ec_g P) coeff) (drawCoefficients rnd pos t))"
proof -
  have "\<forall>a\<in>set (drawCoefficients rnd pos t). 0 \<le> a" using drawCoefficients_range by blast
  from verify_tracks_evaluate [OF laws this, of 0 p 0]
  show ?thesis using curve_lawsD(1) [OF laws] by (simp add: verifyShare_def evaluatePolynomial_def)
qed

lemma verifyShare_loop_sum:
  assumes laws: "curve_laws P"
  shows "verifyShare_loop P p cs j acc =
         foldl (ec_add P) acc (map (\<lambda>k. ec_mul P (cs ! k) (int p ^ (j + k))) [0..<length cs])"
proof (induction cs arbitrary: j acc)
  case Nil
  then show ?case by simp
next
  case (Cons C cs)
  have pw: "ec_mul P C (modPow (int p) (int j) secp_n) = ec_mul P C (int p ^ j)"
    using curve_lawsD(4) [OF laws, of "int p ^ j" C] by (simp add: modPow_party)
  have idx: "[0..<length (C # cs)] = 0 # map Suc [0..<length cs]"
    by (simp add: upt_conv_Cons map_Suc_upt del: upt_Suc)
  show ?case
    unfolding idx by (simp add: Cons.IH pw o_def del: upt_Suc)
qed

lemma verifyShare_iff_equation:
  assumes "curve_laws P"
  shows "verifyShare P p s cs = feldman_equation P p s cs"
  using verifyShare_loop_sum [OF assms, of p cs 0 "ec_identity P"]
  by (simp add: verifyShare_def feldman_equation_def feldman_sum_def)

lemma zn_platform_laws: "curve_laws zn_platform"
  by (simp add: curve_laws_def zn_platform_def mod_simps)

lemma generateShares_ok:
  assumes "1 \<le> threshold"
  shows "generateShares P rnd pos threshold totalParties =
         Inr \<lparr>vss_masterPublicKey = ec_mul P (ec_g P) (randomScalar rnd pos),
              vss_shares = map (\<lambda>x. (x, evaluatePolynomial (drawCoefficients rnd pos threshold) (int x)))
                             [1..<Suc totalParties],
              vss_commitments = map (\<lambda>coeff. ec_mul P (ec_g P) coeff)
                                  (drawCoefficients rnd pos threshold)\<rparr>"
proof -
  obtain t where t: "threshold = Suc t" using assms by (cases threshold) simp_all
  have "drawCoefficients rnd pos threshold =
        randomScalar rnd pos # map (\<lambda>i. randomScalar rnd (pos + i)) [1..<Suc t]"
    unfolding drawCoefficients_def t by (simp add: upt_conv_Cons del: upt_Suc)
  then show ?thesis by (simp add: generateShares_def Let_def)
qed


text \<open>Evaluation of the arithmetic on numerals.\<close>

lemma upt_from_0: "[0..<numeral k] = 0 # [1..<numeral k]"
  by (simp add: upt_conv_Cons)

lemma upt_from_1:
  "[Suc 0..<numeral k] = (if Suc 0 < numeral k then Suc 0 # [2..<numeral k] else [])"
  using upt_rec [of "Suc 0" "numeral k"] by (simp only: numeral_2_eq_2)

lemma replicate_numeral: "replicate (numeral k) x = x # replicate (pred_numeral k) x"
  by (simp add: numeral_eq_Suc)

lemmas eval_arith = bigint_rem_def bigint_div_def secp_n_def modPow_def modPow_loop.simps
  evaluatePolynomial_def randomScalar_def randomBytes32_def drawCoefficients_def
  upt_from_0 upt_from_1

lemmas eval_strings = replicate_numeral toString16_def padStart64_def hexNat.simps hexDigit_def
  hexValue_def keyBytes_def toHex_def decimal.simps decimalDigit_def secretName_def
  parseHexBigInt_def trimEnd.simps whiteSpace_def endsWith_def bytesOfNat.simps natOfBytes_def checksum_def

lemmas eval_store = createSecret_def getSecretValue_def storeKeyShare_def getKeyShare_def
  initializeParties_def newTSSParty_def

lemmas eval_party = generateDeterministicNonce_def generateCommitment_def
  createPartialSignature_def verifyCommitment_def

lemma zn_sel:
  "sha256 zn_platform = checksum"
  "ec_g zn_platform = 1"
  "ec_identity zn_platform = 0"
  "ec_add zn_platform a b = (a + b) mod secp_n"
  "ec_mul zn_platform a k = (a * k) mod secp_n"
  "ec_getX zn_platform a = (if a = 0 then None else Some a)"
  "ec_encode zn_platform a = (if a = 0 then None else Some (bytesOfNat (nat a)))"
  "ec_decodePoint zn_platform bs = Some (int (natOfBytes bs))"
  "ec_verify zn_platform h sg key = Some False"
  by (simp_all add: zn_platform_def)

lemma demo_vss:
  "generateShares zn_platform demo_rnd 0 2 3 =
     Inr \<lparr>vss_masterPublicKey = 7, vss_shares = [(1, 19), (2, 31), (3, 43)],
          vss_commitments = [7, 12]\<rparr>"
  by (simp add: generateShares_def demo_rnd_def zn_platform_def eval_arith Let_def)

lemma demo_verify: "verifyShare zn_platform 1 19 [7, 12]" "\<not> verifyShare zn_platform 1 20 [7, 12]"
  by (simp_all add: verifyShare_def zn_platform_def eval_arith Let_def)


text \<open>
  Claim C2. For every threshold \<open>t \<ge> 1\<close>, every number of parties and every content of
  the entropy stream, \<^verbatim>\<open>FeldmanVSS.generateShares\<close> returns, and every share
  \<open>(p, s\<^sub>p)\<close> it returns satisfies the Feldman verification equation
  \<open>s\<^sub>p\<cdot>G = \<Sum>\<^sub>j C\<^sub>j\<cdot>p\<^sup>j\<close> against the \<open>t\<close> commitments it returns; and
  \<^verbatim>\<open>FeldmanVSS.verifyShare\<close> returns true exactly when that equation holds. The curve
  package is assumed to obey \<open>curve_laws\<close>.
\<close>

theorem feldman_shares_verify:
  assumes "curve_laws P" and "1 \<le> threshold"
  shows "(\<exists>v. generateShares P rnd pos threshold totalParties = Inr v \<and>
              map fst (vss_shares v) = [1..<Suc totalParties] \<and>
              length (vss_commitments v) = threshold \<and>
              list_all (\<lambda>(p, s). feldman_equation P p s (vss_commitments v)) (vss_shares v)) \<and>
         (verifyShare P p s cs \<longleftrightarrow> feldman_equation P p s cs)"
proof -
  let ?cs = "map (\<lambda>coeff. ec_mul P (ec_g P) coeff) (drawCoefficients rnd pos threshold)"
  let ?sh = "map (\<lambda>x. (x, evaluatePolynomial (drawCoefficients rnd pos threshold) (int x)))
               [1..<Suc totalParties]"
  have eq: "\<And>q. feldman_equation P q (evaluatePolynomial (drawCoefficients rnd pos threshold) (int q)) ?cs"
    using generated_share_verifies [OF assms(1)] verifyShare_iff_equation [OF assms(1)] by blast
  have "list_all (\<lambda>(p, s). feldman_equation P p s ?cs) ?sh"
    using eq by (simp add: list_all_iff)
  moreover have "map fst ?sh = [1..<Suc totalParties]" by (simp add: o_def)
  moreover have "length ?cs = threshold" by (simp add: drawCoefficients_def)
  ultimately have "\<exists>v. generateShares P rnd pos threshold totalParties = Inr v \<and>
              map fst (vss_shares v) = [1..<Suc totalParties] \<and>
              length (vss_commitments v) = threshold \<and>
              list_all (\<lambda>(p, s). feldman_equation P p s (vss_commitments v)) (vss_shares v)"
    unfolding generateShares_ok [OF assms(2)] by simp
  then show ?thesis using verifyShare_iff_equation [OF assms(1)] by blast
qed

theorem feldman_shares_verify_witness:
  "(1::nat) \<le> 2 \<and>
   generateShares zn_platform demo_rnd 0 2 3 =
     Inr \<lparr>vss_masterPublicKey = 7, vss_shares = [(1, 19), (2, 31), (3, 43)],
          vss_commitments = [7, 12]\<rparr> \<and>
   feldman_equation zn_platform 1 19 [7, 12] \<and>
   feldman_equation zn_platform 2 31 [7, 12] \<and>
   feldman_equation zn_platform 3 43 [7, 12] \<and>
   verifyShare zn_platform 1 19 [7, 12] \<and>
   \<not> verifyShare zn_platform 1 20 [7, 12] \<and>
   \<not> feldman_equation zn_platform 1 20 [7, 12]"
proof -
  have t: "(1::nat) \<le> 2" by simp
  from feldman_shares_verify [OF zn_platform_laws t, of demo_rnd 0 3 1 20 "[7, 12]"]
  show ?thesis using demo_verify by (simp add: demo_vss)
qed

subsection \<open>The sample states, evaluated\<close>

lemma demo_dkg:
  "performDKG zn_platform demo_rnd ''w2'' 2 3 fresh =
     (Inr \<lparr>publicKey = ''0x07'', shareIds = [1, 2, 3]\<rparr>,
      \<lparr>parties = Map.empty, masterPublicKey = Some 7, commitments = [7, 12],
       secrets = [''hyperliquid/tss-shares/w2/share-1'' \<mapsto>
                    ''0000000000000000000000000000000000000000000000000000000000000013'',
                  ''hyperliquid/tss-shares/w2/share-2'' \<mapsto>
                    ''000000000000000000000000000000000000000000000000000000000000001f'',
                  ''hyperliquid/tss-shares/w2/share-3'' \<mapsto>
                    ''000000000000000000000000000000000000000000000000000000000000002b''],
       storeDown = False, rngPos = 2\<rparr>)"
  by (simp add: performDKG_def demo_vss fresh_def verifyShare_def zn_sel
      eval_arith eval_strings eval_store Let_def)

lemma demo_wallet_eq:
  "demo_wallet =
      \<lparr>parties = Map.empty, masterPublicKey = Some 7, commitments = [7, 12],
       secrets = [''hyperliquid/tss-shares/w2/share-1'' \<mapsto>
                    ''0000000000000000000000000000000000000000000000000000000000000013'',
                  ''hyperliquid/tss-shares/w2/share-2'' \<mapsto>
                    ''000000000000000000000000000000000000000000000000000000000000001f'',
                  ''hyperliquid/tss-shares/w2/share-3'' \<mapsto>
                    ''000000000000000000000000000000000000000000000000000000000000002b''],
       storeDown = False, rngPos = 2\<rparr>"
  by (simp add: demo_wallet_def demo_dkg)

lemma demo_ready_eq:
  "demo_ready = demo_wallet\<lparr>parties := [1 \<mapsto> newTSSParty 1 19, 2 \<mapsto> newTSSParty 2 31, 3 \<mapsto> newTSSParty 3 43]\<rparr>"
  by (simp add: demo_ready_def demo_wallet_eq initializeParties_def getKeyShare_def getSecretValue_def
      eval_strings upt_from_1)

lemmas eval_sign = signWithTSS_def eval_party zn_sel eval_strings eval_arith Let_def

lemma demo_sign_result:
  "fst (signWithTSS zn_platform ''w2'' [1, 2, 3] [1, 2] demo_ready) =
     Inr \<lparr>sig_r = ''0000000000000000000000000000000000000000000000000000000000000040'',
          sig_s = ''000000000000000000000000000000000000000000000000000000000000019e'',
          sig_method = ''Threshold Signatures (Feldman VSS DKG + Multi-round Protocol)''\<rparr>"
  by (simp add: demo_ready_eq demo_wallet_eq newTSSParty_def eval_sign split del: if_split)

lemma demo_sign_parties:
  "parties (snd (signWithTSS zn_platform ''w2'' [1, 2, 3] [1, 2] demo_ready)) 1 =
     Some \<lparr>partyId = 1, keyShare = 19, ephemeralKey = Some 26, ephemeralCommitment = Some 27\<rparr>"
  "parties (snd (signWithTSS zn_platform ''w2'' [1, 2, 3] [1, 2] demo_ready)) 2 =
     Some \<lparr>partyId = 2, keyShare = 31, ephemeralKey = Some 38, ephemeralCommitment = Some 39\<rparr>"
  by (simp_all add: demo_ready_eq demo_wallet_eq newTSSParty_def eval_sign split del: if_split)

lemma demo_verifySignature:
  "verifySignature zn_platform demo_ready [1, 2, 3]
     ''0000000000000000000000000000000000000000000000000000000000000040''
     ''000000000000000000000000000000000000000000000000000000000000019e'' = Inr False"
  by (simp add: verifySignature_def demo_ready_eq demo_wallet_eq zn_sel)

lemma single_party_sign:
  "fst (signWithTSS zn_platform ''w2'' [1, 2, 3] [1] demo_ready) =
     Inr \<lparr>sig_r = ''000000000000000000000000000000000000000000000000000000000000001a'',
          sig_s = ''000000000000000000000000000000000000000000000000000000000000009f'',
          sig_method = ''Threshold Signatures (Feldman VSS DKG + Multi-round Protocol)''\<rparr>"
  by (simp add: demo_ready_eq demo_wallet_eq newTSSParty_def eval_sign split del: if_split)

lemma demo_first_dkg:
  "performDKG zn_platform demo_rnd ''w2'' 2 3 fresh =
     (Inr \<lparr>publicKey = ''0x07'', shareIds = [1, 2, 3]\<rparr>, demo_wallet)"
  by (simp add: demo_dkg demo_wallet_eq)

lemma second_dkg_result:
  "fst (performDKG zn_platform demo_rnd ''w2'' 2 3 demo_wallet) =
     Inr \<lparr>publicKey = ''0x11'', shareIds = [1, 2, 3]\<rparr>"
  by (simp add: performDKG_def generateShares_def demo_wallet_eq verifyShare_def zn_sel demo_rnd_def
      eval_arith eval_strings eval_store Let_def split del: if_split)

lemma second_dkg_secrets:
  "secrets (snd (performDKG zn_platform demo_rnd ''w2'' 2 3 demo_wallet))
     ''hyperliquid/tss-shares/w2/share-1'' =
     Some ''0000000000000000000000000000000000000000000000000000000000000013''"
  "masterPublicKey (snd (performDKG zn_platform demo_rnd ''w2'' 2 3 demo_wallet)) = Some 17"
  by (simp_all add: performDKG_def generateShares_def demo_wallet_eq verifyShare_def zn_sel demo_rnd_def
      eval_arith eval_strings eval_store Let_def split del: if_split)


subsection \<open>Round 1: the deterministic nonce\<close>



























subsection \<open>Round 3: the partial signature\<close>






subsection \<open>The coefficients of the polynomial\<close>

lemma coefficient_range:
  "list_all (\<lambda>a. 0 \<le> a \<and> a < secp_n) (drawCoefficients rnd pos t)"
  using drawCoefficients_range by (auto simp: list_all_iff)

(*MARK_C9*)

text \<open>
  Claim C9 as stated fails: when the random bytes are all zero the coefficients are zero,
  and \<^verbatim>\<open>generateShares\<close> returns zero shares and identity commitments.
\<close>

theorem zero_coefficients_accepted:
  "drawCoefficients zero_rnd 0 2 = [0, 0] \<and>
   generateShares zn_platform zero_rnd 0 2 3 =
     Inr \<lparr>vss_masterPublicKey = 0, vss_shares = [(1, 0), (2, 0), (3, 0)],
          vss_commitments = [0, 0]\<rparr>"
  by (simp add: generateShares_def zero_rnd_def zn_sel eval_arith Let_def split del: if_split)


subsection \<open>Ephemeral state after a session\<close>

lemma generateCommitment_ok:
  assumes "generateCommitment P party m = (Inr c, party')"
  shows "ephemeralKey party' = Some (generateDeterministicNonce P party' m) \<and>
         ephemeralCommitment party' = Some (commitment c)"
  using assms
  by (auto simp: generateCommitment_def generateDeterministicNonce_def Let_def split: option.splits)

lemma round1_committed:
  "round1 P m ids cm st = (Inr cm', st') \<Longrightarrow>
   (\<forall>pid\<in>set ids. committed P m st' pid) \<and> (\<forall>pid. committed P m st pid \<longrightarrow> committed P m st' pid)"
proof (induction ids arbitrary: cm st)
  case Nil
  then show ?case by simp
next
  case (Cons pid rest)
  from Cons.prems obtain party where party: "parties st pid = Some party"
    by (cases "parties st pid") simp_all
  obtain r party' where gc: "generateCommitment P party m = (r, party')"
    by (cases "generateCommitment P party m")
  from Cons.prems party gc obtain c where c: "r = Inr c"
    by (cases r) simp_all
  let ?st1 = "st\<lparr>parties := (parties st)(pid \<mapsto> party')\<rparr>"
  have rec: "round1 P m rest (mapSet pid c cm) ?st1 = (Inr cm', st')"
    using Cons.prems party gc c by simp
  have here: "committed P m ?st1 pid"
    using generateCommitment_ok [OF gc [unfolded c]] by (simp add: committed_def)
  have keep: "\<And>q. committed P m st q \<Longrightarrow> committed P m ?st1 q"
    using here by (simp add: committed_def)
  from Cons.IH [OF rec] here keep show ?case by auto
qed

lemma signWithTSS_state: "snd (signWithTSS P w m ids st) = snd (round1 P m ids [] st)"
  by (simp add: signWithTSS_def Let_def split: prod.split sum.split option.split list.split)

lemma signWithTSS_round1:
  "signWithTSS P w m ids st = (Inr sg, st') \<Longrightarrow> \<exists>cm. round1 P m ids [] st = (Inr cm, st')"
  by (auto simp: signWithTSS_def Let_def split: prod.splits sum.splits option.splits list.splits)

(*MARK_C3*)

text \<open>
  Claim C3 as stated fails: after the session on the sample wallet has returned its
  signature, party 1 holds the ephemeral key 26 and the commitment 27.
\<close>

theorem ephemeral_key_survives_session:
  "fst (signWithTSS zn_platform ''w2'' [1, 2, 3] [1, 2] demo_ready) =
     Inr \<lparr>sig_r = ''0000000000000000000000000000000000000000000000000000000000000040'',
          sig_s = ''000000000000000000000000000000000000000000000000000000000000019e'',
          sig_method = ''Threshold Signatures (Feldman VSS DKG + Multi-round Protocol)''\<rparr> \<and>
   parties (snd (signWithTSS zn_platform ''w2'' [1, 2, 3] [1, 2] demo_ready)) 1 =
     Some \<lparr>partyId = 1, keyShare = 19, ephemeralKey = Some 26, ephemeralCommitment = Some 27\<rparr>"
  using demo_sign_result demo_sign_parties(1) by simp


subsection \<open>The values of the signature\<close>

lemma createPartialSignature_rX:
  "createPartialSignature P party m R = Inr p \<Longrightarrow> ec_getX P R = Some x \<Longrightarrow>
   rX p = padStart64 (toString16 x)"
  by (auto simp: createPartialSignature_def Let_def split: option.splits if_splits)

lemma round3_r:
  "round3 P m R ids acc st = Inr ps \<Longrightarrow> ec_getX P R = Some x \<Longrightarrow>
   list_all (\<lambda>p. ps_r p = padStart64 (toString16 x)) acc \<Longrightarrow>
   list_all (\<lambda>p. ps_r p = padStart64 (toString16 x)) ps"
proof (induction ids arbitrary: acc)
  case Nil
  then show ?case by simp
next
  case (Cons pid rest)
  show ?case
  proof (cases "parties st pid")
    case None
    then show ?thesis using Cons by simp
  next
    case (Some party)
    from Cons.prems(1) Some obtain p where p: "createPartialSignature P party m R = Inr p"
      by (cases "createPartialSignature P party m R") simp_all
    have rec: "round3 P m R rest (acc @ [\<lparr>ps_partyId = pid, ps_s = partialS p, ps_r = rX p\<rparr>]) st = Inr ps"
      using Cons.prems(1) Some p by simp
    have "list_all (\<lambda>p. ps_r p = padStart64 (toString16 x))
            (acc @ [\<lparr>ps_partyId = pid, ps_s = partialS p, ps_r = rX p\<rparr>])"
      using Cons.prems(3) createPartialSignature_rX [OF p Cons.prems(2)] by simp
    from Cons.IH [OF rec Cons.prems(2) this] show ?thesis .
  qed
qed

lemma aggregateS_sum:
  "0 \<le> a \<Longrightarrow> a < secp_n \<Longrightarrow> list_all (\<lambda>p. 0 \<le> ps_s p) ps \<Longrightarrow>
   aggregateS ps a = (a + sum_list (map ps_s ps)) mod secp_n"
proof (induction ps arbitrary: a)
  case Nil
  then show ?case by simp
next
  case (Cons p ps)
  have n: "0 < secp_n" using secp_n_gt_1 by simp
  have s: "0 \<le> ps_s p" and rest: "list_all (\<lambda>p. 0 \<le> ps_s p) ps" using Cons.prems by simp_all
  have step: "bigint_rem (a + ps_s p) secp_n = (a + ps_s p) mod secp_n"
    using Cons.prems(1) s n by (simp add: bigint_rem_nonneg)
  have "aggregateS (p # ps) a = aggregateS ps ((a + ps_s p) mod secp_n)"
    by (simp add: step)
  also have "\<dots> = ((a + ps_s p) mod secp_n + sum_list (map ps_s ps)) mod secp_n"
    using n by (intro Cons.IH rest) simp_all
  also have "\<dots> = (a + sum_list (map ps_s (p # ps))) mod secp_n"
    by (simp add: mod_add_left_eq add.assoc)
  finally show ?case .
qed

(*MARK_C6*)

subsection \<open>Key generation and the store\<close>

lemma storeKeyShare_cases:
  assumes "storeKeyShare w i s st = (r, st')"
  shows "r \<noteq> Inl (StoreError ResourceExists)"
    and "storeDown st' = storeDown st"
    and "secrets st name = Some v \<Longrightarrow> secrets st' name = Some v"
    and "r = Inr () \<Longrightarrow> secrets st' (secretName w i) \<noteq> None"
    and "\<not> storeDown st \<Longrightarrow> r = Inr ()"
  using assms
  by (auto simp: storeKeyShare_def createSecret_def Let_def split: if_splits option.splits)

lemma performDKG_loop_keeps:
  "performDKG_loop P w cs shares st = (r, st') \<Longrightarrow>
   r \<noteq> Inl (StoreError ResourceExists) \<and> storeDown st' = storeDown st \<and>
   (\<forall>name v. secrets st name = Some v \<longrightarrow> secrets st' name = Some v) \<and>
   (r = Inr () \<longrightarrow> (\<forall>p\<in>set (map fst shares). secrets st' (secretName w p) \<noteq> None))"
proof (induction shares arbitrary: st)
  case Nil
  then show ?case by auto
next
  case (Cons ps rest)
  obtain p s where ps: "ps = (p, s)" by (cases ps)
  show ?case
  proof (cases "verifyShare P p s cs")
    case False
    then show ?thesis using Cons.prems ps by auto
  next
    case True
    obtain r1 st1 where sk: "storeKeyShare w p s st = (r1, st1)" by (cases "storeKeyShare w p s st")
    note facts = storeKeyShare_cases [OF sk]
    show ?thesis
    proof (cases r1)
      case (Inl e)
      then show ?thesis using Cons.prems ps True sk facts by auto
    next
      case (Inr u)
      then have rec: "performDKG_loop P w cs rest st1 = (r, st')"
        using Cons.prems ps True sk by simp
      from Cons.IH [OF rec] facts Inr ps show ?thesis
        by (auto simp: domIff)
    qed
  qed
qed

lemma performDKG_loop_succeeds:
  "\<not> storeDown st \<Longrightarrow> list_all (\<lambda>(p, s). verifyShare P p s cs) shares \<Longrightarrow>
   \<exists>st'. performDKG_loop P w cs shares st = (Inr (), st')"
proof (induction shares arbitrary: st)
  case Nil
  then show ?case by simp
next
  case (Cons ps rest)
  obtain p s where ps: "ps = (p, s)" by (cases ps)
  obtain r1 st1 where sk: "storeKeyShare w p s st = (r1, st1)" by (cases "storeKeyShare w p s st")
  note facts = storeKeyShare_cases [OF sk]
  have r1: "r1 = Inr ()" using facts(5) Cons.prems(1) by simp
  have up: "\<not> storeDown st1" using facts(2) Cons.prems(1) by simp
  have "list_all (\<lambda>(p, s). verifyShare P p s cs) rest" using Cons.prems(2) by simp
  from Cons.IH [OF up this] obtain st' where "performDKG_loop P w cs rest st1 = (Inr (), st')" by blast
  then show ?case using Cons.prems(2) ps sk r1 by simp
qed

lemma generateShares_error: "generateShares P rnd pos t N = Inl e \<Longrightarrow> e = TypeError"
  by (auto simp: generateShares_def Let_def split: list.splits)

lemma performDKG_keeps_all:
  assumes "performDKG P rnd w t N st = (r, st')"
  shows "r \<noteq> Inl (StoreError ResourceExists) \<and> storeDown st' = storeDown st \<and>
      (\<forall>name v. secrets st name = Some v \<longrightarrow> secrets st' name = Some v) \<and>
      (\<forall>res. r = Inr res \<longrightarrow> list_all (\<lambda>p. secrets st' (secretName w p) \<noteq> None) (shareIds res))"
proof (cases "generateShares P rnd (rngPos st) t N")
  case (Inl e)
  then show ?thesis
    using assms generateShares_error [OF Inl] by (auto simp: performDKG_def Let_def)
next
  case (Inr vs)
  let ?st1 = "st\<lparr>rngPos := rngPos st + t, masterPublicKey := Some (vss_masterPublicKey vs),
                 commitments := vss_commitments vs\<rparr>"
  obtain r1 st2 where loop: "performDKG_loop P w (vss_commitments vs) (vss_shares vs) ?st1 = (r1, st2)"
    by (cases "performDKG_loop P w (vss_commitments vs) (vss_shares vs) ?st1")
  note keep = performDKG_loop_keeps [OF loop]
  show ?thesis
  proof (cases r1)
    case e: (Inl e)
    then show ?thesis using assms Inr loop keep by (auto simp: performDKG_def Let_def)
  next
    case u: (Inr u)
    then show ?thesis using assms Inr loop keep
      by (auto simp: performDKG_def Let_def list_all_iff split: option.splits)
  qed
qed

lemma performDKG_keeps:
  assumes "performDKG P rnd w t N st = (r, st')"
  shows "r \<noteq> Inl (StoreError ResourceExists)"
    and "storeDown st' = storeDown st"
    and "secrets st name = Some v \<Longrightarrow> secrets st' name = Some v"
    and "r = Inr res \<Longrightarrow> list_all (\<lambda>p. secrets st' (secretName w p) \<noteq> None) (shareIds res)"
  using performDKG_keeps_all [OF assms] by blast+

lemma performDKG_succeeds:
  assumes laws: "curve_laws P" and t: "1 \<le> t" and up: "\<not> storeDown st"
    and enc: "ec_encode P (ec_mul P (ec_g P) (randomScalar rnd (rngPos st))) \<noteq> None"
  shows "\<exists>res st'. performDKG P rnd w t N st = (Inr res, st') \<and> shareIds res = [1..<Suc N]"
proof -
  let ?co = "drawCoefficients rnd (rngPos st) t"
  let ?cs = "map (\<lambda>coeff. ec_mul P (ec_g P) coeff) ?co"
  let ?sh = "map (\<lambda>x. (x, evaluatePolynomial ?co (int x))) [1..<Suc N]"
  let ?st1 = "st\<lparr>rngPos := rngPos st + t, masterPublicKey := Some (ec_mul P (ec_g P) (randomScalar rnd (rngPos st))),
                 commitments := ?cs\<rparr>"
  have ver: "list_all (\<lambda>(p, s). verifyShare P p s ?cs) ?sh"
    using generated_share_verifies [OF laws] by (simp add: list_all_iff)
  have "\<not> storeDown ?st1" using up by simp
  from performDKG_loop_succeeds [OF this ver]
  obtain st2 where loop: "performDKG_loop P w ?cs ?sh ?st1 = (Inr (), st2)" by blast
  from enc obtain bs where bs: "ec_encode P (ec_mul P (ec_g P) (randomScalar rnd (rngPos st))) = Some bs"
    by auto
  show ?thesis
    using loop bs by (simp add: performDKG_def generateShares_ok [OF t] Let_def o_def)
qed

(*MARK_C4*)

text \<open>
  Claim C4 as stated fails: on the sample wallet the second \<^verbatim>\<open>performDKG('w2', 2, 3)\<close>
  returns a result, with the public key \<^verbatim>\<open>0x11\<close> where the first returned \<^verbatim>\<open>0x07\<close>.
\<close>

theorem second_dkg_succeeds:
  "performDKG zn_platform demo_rnd ''w2'' 2 3 fresh =
     (Inr \<lparr>publicKey = ''0x07'', shareIds = [1, 2, 3]\<rparr>, demo_wallet) \<and>
   fst (performDKG zn_platform demo_rnd ''w2'' 2 3 demo_wallet) =
     Inr \<lparr>publicKey = ''0x11'', shareIds = [1, 2, 3]\<rparr>"
  using demo_first_dkg second_dkg_result by simp


subsection \<open>Shares that cannot be read\<close>

lemma randomScalar_range: "0 \<le> randomScalar rnd k \<and> randomScalar rnd k < secp_n"
  using secp_n_gt_1 by (simp add: randomScalar_def randomBytes32_def bigint_rem_nonneg)

lemma getKeyShare_fallback:
  "storeDown st \<or> secrets st (secretName w i) = None \<Longrightarrow>
   getKeyShare rnd w i st = (randomScalar rnd (rngPos st), st\<lparr>rngPos := Suc (rngPos st)\<rparr>)"
  by (auto simp: getKeyShare_def getSecretValue_def Let_def)

lemma getKeyShare_frame:
  "getKeyShare rnd w i st = (s, st') \<Longrightarrow>
   parties st' = parties st \<and> secrets st' = secrets st \<and> storeDown st' = storeDown st"
  by (auto simp: getKeyShare_def Let_def split: sum.splits option.splits)

lemma initializeParties_loop_parties:
  "(i \<in> set ids \<longrightarrow> (\<exists>share. parties (initializeParties_loop rnd w ids st) i = Some (newTSSParty i share))) \<and>
   (i \<notin> set ids \<longrightarrow> parties (initializeParties_loop rnd w ids st) i = parties st i)"
proof (induction ids arbitrary: st)
  case Nil
  then show ?case by simp
next
  case (Cons j rest)
  obtain s st1 where g: "getKeyShare rnd w j st = (s, st1)" by (cases "getKeyShare rnd w j st")
  let ?st2 = "st1\<lparr>parties := (parties st1)(j \<mapsto> newTSSParty j s)\<rparr>"
  have frame: "parties st1 = parties st" using getKeyShare_frame [OF g] by simp
  have step: "initializeParties_loop rnd w (j # rest) st = initializeParties_loop rnd w rest ?st2"
    using g by simp
  show ?case
    unfolding step using Cons.IH [of ?st2] frame by (cases "i \<in> set rest") auto
qed

lemma initializeParties_loop_down:
  "storeDown st \<Longrightarrow> distinct ids \<Longrightarrow> k < length ids \<Longrightarrow>
   parties (initializeParties_loop rnd w ids st) (ids ! k) =
     Some (newTSSParty (ids ! k) (randomScalar rnd (rngPos st + k)))"
proof (induction ids arbitrary: st k)
  case Nil
  then show ?case by simp
next
  case (Cons j rest)
  let ?st2 = "st\<lparr>rngPos := Suc (rngPos st),
                 parties := (parties st)(j \<mapsto> newTSSParty j (randomScalar rnd (rngPos st)))\<rparr>"
  have step: "initializeParties_loop rnd w (j # rest) st = initializeParties_loop rnd w rest ?st2"
    using getKeyShare_fallback [of st w j rnd] Cons.prems(1) by simp
  have down: "storeDown ?st2" using Cons.prems(1) by simp
  show ?case
  proof (cases k)
    case 0
    have "j \<notin> set rest" using Cons.prems(2) by simp
    then have "parties (initializeParties_loop rnd w rest ?st2) j = parties ?st2 j"
      using initializeParties_loop_parties [of j rest rnd w ?st2] by simp
    then show ?thesis using 0 step by simp
  next
    case (Suc k')
    have "k' < length rest" "distinct rest" using Cons.prems Suc by simp_all
    from Cons.IH [OF down this(2) this(1)] show ?thesis using Suc step by simp
  qed
qed

(*MARK_C10*)

subsection \<open>The check after aggregation, and the quorum\<close>

text \<open>
  The result of \<^verbatim>\<open>signWithTSS\<close> depends neither on the master public key held by the
  coordinator nor on what \<^verbatim>\<open>ec.verify\<close> answers.
\<close>

lemma generateCommitment_no_verify:
  "generateCommitment (P\<lparr>ec_verify := v\<rparr>) party m = generateCommitment P party m"
  by (simp add: generateCommitment_def generateDeterministicNonce_def Let_def split: option.split)

lemma round1_no_key:
  "round1 (P\<lparr>ec_verify := v\<rparr>) m ids cm (st\<lparr>masterPublicKey := key\<rparr>) =
     (fst (round1 P m ids cm st), (snd (round1 P m ids cm st))\<lparr>masterPublicKey := key\<rparr>)"
proof (induction ids arbitrary: cm st)
  case Nil
  then show ?case by simp
next
  case (Cons pid rest)
  show ?case
  proof (cases "parties st pid")
    case None
    then show ?thesis by simp
  next
    case (Some party)
    obtain r party' where g: "generateCommitment P party m = (r, party')"
      by (cases "generateCommitment P party m")
    show ?thesis
    proof (cases r)
      case (Inl e)
      then show ?thesis using Some g by (simp add: generateCommitment_no_verify)
    next
      case (Inr c)
      let ?st1 = "st\<lparr>parties := (parties st)(pid \<mapsto> party')\<rparr>"
      have eq: "(st\<lparr>masterPublicKey := key\<rparr>)\<lparr>parties := (parties st)(pid \<mapsto> party')\<rparr> =
                ?st1\<lparr>masterPublicKey := key\<rparr>"
        by simp
      have "round1 (P\<lparr>ec_verify := v\<rparr>) m (pid # rest) cm (st\<lparr>masterPublicKey := key\<rparr>) =
            round1 (P\<lparr>ec_verify := v\<rparr>) m rest (mapSet pid c cm)
              ((st\<lparr>masterPublicKey := key\<rparr>)\<lparr>parties := (parties st)(pid \<mapsto> party')\<rparr>)"
        using Some g Inr by (simp add: generateCommitment_no_verify)
      also have "\<dots> = round1 (P\<lparr>ec_verify := v\<rparr>) m rest (mapSet pid c cm)
                          (?st1\<lparr>masterPublicKey := key\<rparr>)"
        by (simp only: eq)
      also have "\<dots> = (fst (round1 P m rest (mapSet pid c cm) ?st1),
                         (snd (round1 P m rest (mapSet pid c cm) ?st1))\<lparr>masterPublicKey := key\<rparr>)"
        by (rule Cons.IH)
      also have "\<dots> = (fst (round1 P m (pid # rest) cm st),
                         (snd (round1 P m (pid # rest) cm st))\<lparr>masterPublicKey := key\<rparr>)"
        using Some g Inr by simp
      finally show ?thesis .
    qed
  qed
qed

lemma round2_no_key:
  "round2 (P\<lparr>ec_verify := v\<rparr>) cm R (st\<lparr>masterPublicKey := key\<rparr>) = round2 P cm R st"
  by (induction cm arbitrary: R) (auto simp: verifyCommitment_def split: option.splits)

lemma round3_no_key:
  "round3 (P\<lparr>ec_verify := v\<rparr>) m R ids acc (st\<lparr>masterPublicKey := key\<rparr>) = round3 P m R ids acc st"
  by (induction ids arbitrary: acc)
     (auto simp: createPartialSignature_def Let_def split: option.splits sum.splits)

lemma signWithTSS_no_key:
  "fst (signWithTSS (P\<lparr>ec_verify := v\<rparr>) w m ids (st\<lparr>masterPublicKey := key\<rparr>)) =
   fst (signWithTSS P w m ids st)"
proof -
  obtain r1 st1 where r1: "round1 P m ids [] st = (r1, st1)" by (cases "round1 P m ids [] st")
  have r1': "round1 (P\<lparr>ec_verify := v\<rparr>) m ids [] (st\<lparr>masterPublicKey := key\<rparr>) =
             (r1, st1\<lparr>masterPublicKey := key\<rparr>)"
    using round1_no_key [where P = P and v = v and m = m and ids = ids and cm = "[]" and st = st
        and key = key] r1 by simp
  show ?thesis
    by (simp add: signWithTSS_def r1 r1' round2_no_key round3_no_key Let_def
        split: sum.split option.split list.split)
qed

text \<open>
  Claim C1 fails on the code. On the sample wallet \<^verbatim>\<open>signWithTSS\<close> returns the signature
  \<open>(r, s)\<close> although \<^verbatim>\<open>verifySignature\<close>, called with that message and that signature,
  answers false: the \<^verbatim>\<open>return\<close> of Round 4 comes before the call of
  \<^verbatim>\<open>verifySignature\<close>, which is never reached (see \<open>signWithTSS_no_key\<close>).
\<close>

theorem signature_returned_unverified:
  "fst (signWithTSS zn_platform ''w2'' [1, 2, 3] [1, 2] demo_ready) =
     Inr \<lparr>sig_r = ''0000000000000000000000000000000000000000000000000000000000000040'',
          sig_s = ''000000000000000000000000000000000000000000000000000000000000019e'',
          sig_method = ''Threshold Signatures (Feldman VSS DKG + Multi-round Protocol)''\<rparr> \<and>
   verifySignature zn_platform demo_ready [1, 2, 3]
     ''0000000000000000000000000000000000000000000000000000000000000040''
     ''000000000000000000000000000000000000000000000000000000000000019e'' = Inr False"
  using demo_sign_result demo_verifySignature by simp

text \<open>
  Claim C5 fails on the code. The sample wallet has threshold 2, and \<^verbatim>\<open>signWithTSS\<close>
  with the single party 1 runs all four rounds and returns a signature: the function
  does not look at the threshold.
\<close>

theorem below_threshold_signs:
  "length [1 :: nat] < 2 \<and>
   fst (signWithTSS zn_platform ''w2'' [1, 2, 3] [1] demo_ready) =
     Inr \<lparr>sig_r = ''000000000000000000000000000000000000000000000000000000000000001a'',
          sig_s = ''000000000000000000000000000000000000000000000000000000000000009f'',
          sig_method = ''Threshold Signatures (Feldman VSS DKG + Multi-round Protocol)''\<rparr>"
  using single_party_sign by simp


end
